theory Spec2Isabelle
  imports Complex_Main "HOL-Library.AList" "HOL-Library.Multiset"
begin

section \<open>JSON documents as Python values\<close>

text \<open>
  \<^verbatim>\<open>json.load\<close> builds a tree of fresh Python objects: \<^verbatim>\<open>None\<close>, \<^verbatim>\<open>bool\<close>, \<^verbatim>\<open>int\<close>,
  \<^verbatim>\<open>float\<close>, \<^verbatim>\<open>str\<close>, \<^verbatim>\<open>list\<close> and \<^verbatim>\<open>dict\<close>. No container is shared between two places
  of the tree, so a value datatype describes the document and an in-place mutation of
  the \<^verbatim>\<open>files\<close> list is the replacement of that list inside the document.

  A \<^verbatim>\<open>dict\<close> is an association list in insertion order; Python keeps its keys unique,
  which is the invariant \<open>wf_json\<close> below. A \<^verbatim>\<open>float\<close> is a rational (every finite
  double is one), negative zero, an infinity or \<^verbatim>\<open>NaN\<close>.
\<close>

datatype pyfloat = Finite rat | NegZero | PosInf | NegInf | NaN

datatype json =
    JNull
  | JBool bool
  | JInt int
  | JFloat pyfloat
  | JStr string
  | JArr "json list"
  | JObj "(string \<times> json) list"

datatype pynum = Num rat | PlusInf | MinusInf | NotANumber

fun float_num :: "pyfloat \<Rightarrow> pynum" where
  "float_num (Finite r) = Num r"
| "float_num NegZero = Num 0"
| "float_num PosInf = PlusInf"
| "float_num NegInf = MinusInf"
| "float_num NaN = NotANumber"

text \<open>The numeric value of a \<^verbatim>\<open>bool\<close>, \<^verbatim>\<open>int\<close> or \<^verbatim>\<open>float\<close>; other values have none.\<close>

fun num_of :: "json \<Rightarrow> pynum option" where
  "num_of (JBool b) = Some (Num (if b then 1 else 0))"
| "num_of (JInt i) = Some (Num (of_int i))"
| "num_of (JFloat f) = Some (float_num f)"
| "num_of _ = None"

text \<open>
  \<open>py_eq a b\<close> is the comparison that \<^verbatim>\<open>list.remove\<close>, \<^verbatim>\<open>in\<close> and the comparison of
  containers apply to two elements (identity, else \<^verbatim>\<open>a == b\<close>):
  numbers compare by value across \<^verbatim>\<open>bool\<close>, \<^verbatim>\<open>int\<close> and \<^verbatim>\<open>float\<close>; two lists are equal
  when they are elementwise; two dicts are equal when they have the same number of keys and
  every key of the first is a key of the second with an equal value, whatever the order.
  The \<^verbatim>\<open>NaN\<close> of a loaded document is one shared object, equal to itself by identity.
\<close>

function (sequential) py_eq :: "json \<Rightarrow> json \<Rightarrow> bool" where
  "py_eq (JArr xs) b = (case b of JArr ys \<Rightarrow> list_all2 py_eq xs ys | _ \<Rightarrow> False)"
| "py_eq (JObj kvs) b = (case b of
       JObj kws \<Rightarrow> length kvs = length kws \<and>
         list_all (\<lambda>(k, v). case map_of kws k of None \<Rightarrow> False | Some w \<Rightarrow> py_eq v w) kvs
     | _ \<Rightarrow> False)"
| "py_eq JNull b = (b = JNull)"
| "py_eq (JStr s) b = (b = JStr s)"
| "py_eq a b = (case (num_of a, num_of b) of (Some x, Some y) \<Rightarrow> x = y | _ \<Rightarrow> False)"
  by pat_completeness auto
termination
proof (relation "measure (\<lambda>(a, b). size a)")
  show "wf (measure (\<lambda>(a, b). size a))" by simp
next
  fix xs :: "json list" and b x6 z yb
  assume "z \<in> set xs"
  then have "size z < Suc (size_list size xs)"
    by (induction xs) auto
  then show "((z, yb), JArr xs, b) \<in> measure (\<lambda>(a, b). size a)" by simp
next
  fix kvs :: "(string \<times> json) list" and b x7 x xa y x2
  assume "x \<in> set kvs" "(xa, y) = x"
  then have "(xa, y) \<in> set kvs" by simp
  then have "size y < Suc (size_list (size_prod (\<lambda>_. 0) size) kvs)"
    by (induction kvs) auto
  then show "((y, x2), JObj kvs, b) \<in> measure (\<lambda>(a, b). size a)" by simp
qed

text \<open>Python's dicts have unique keys, at every depth of the document.\<close>

fun wf_json :: "json \<Rightarrow> bool" where
  "wf_json (JArr xs) = list_all wf_json xs"
| "wf_json (JObj kvs) = (distinct (map fst kvs) \<and> list_all (\<lambda>(k, v). wf_json v) kvs)"
| "wf_json _ = True"

section \<open>The default transform\<close>

datatype pyexc = KeyError | TypeError | AttributeError | ValueError | OSError | BadZipFile

definition PROJECTS_TO_REMOVE :: "int list" where
  "PROJECTS_TO_REMOVE = [890127, 889079, 406463]"

text \<open>\<^verbatim>\<open>d.get(k)\<close>: the value at the key, \<^verbatim>\<open>None\<close> when the key is absent.\<close>

definition dict_get :: "(string \<times> json) list \<Rightarrow> string \<Rightarrow> json" where
  "dict_get kvs k = (case map_of kvs k of None \<Rightarrow> JNull | Some v \<Rightarrow> v)"

text \<open>\<^verbatim>\<open>x in D\<close> for a list of ints \<open>D\<close>.\<close>

definition py_in :: "json \<Rightarrow> int list \<Rightarrow> bool" where
  "py_in x D = list_ex (\<lambda>d. py_eq (JInt d) x) D"

text \<open>
  \<^verbatim>\<open>xs.remove(v)\<close> deletes the first element equal to \<open>v\<close> and raises \<^verbatim>\<open>ValueError\<close> when
  there is none.
\<close>

fun list_remove :: "json list \<Rightarrow> json \<Rightarrow> pyexc + json list" where
  "list_remove [] v = Inl ValueError"
| "list_remove (x # xs) v =
     (if py_eq x v then Inr xs
      else case list_remove xs v of Inl e \<Rightarrow> Inl e | Inr ys \<Rightarrow> Inr (x # ys))"

text \<open>
  The \<^verbatim>\<open>for\<close> loop of \<^verbatim>\<open>modify_manifest\<close>. Python's list iterator holds an index into the
  live list: each round reads \<open>xs ! i\<close> if \<open>i < length xs\<close>, advances the index, and runs the
  body, which may shorten the list. An element that is not a dict has no \<^verbatim>\<open>get\<close>
  (\<^verbatim>\<open>AttributeError\<close>). The progress message printed before a removal is not modelled.
\<close>

function files_loop :: "int list \<Rightarrow> nat \<Rightarrow> json list \<Rightarrow> pyexc + json list" where
  "files_loop D i xs =
     (if i < length xs then
        (case xs ! i of
           JObj kvs \<Rightarrow>
             if py_in (dict_get kvs ''projectID'') D then
               (case list_remove xs (xs ! i) of
                  Inl e \<Rightarrow> Inl e
                | Inr ys \<Rightarrow> files_loop D (Suc i) ys)
             else files_loop D (Suc i) xs
         | _ \<Rightarrow> Inl AttributeError)
      else Inr xs)"
  by pat_completeness auto
termination
proof (relation "measure (\<lambda>(D, i, xs). length xs - i)")
  show "wf (measure (\<lambda>(D, i, xs). length xs - i))" by simp
next
  fix D :: "int list" and i :: nat and xs ys :: "json list" and kvs
  assume lt: "i < length xs" and rm: "list_remove xs (xs ! i) = Inr ys"
  have "\<And>zs v. list_remove xs v = Inr zs \<Longrightarrow> length xs = Suc (length zs)"
    by (induction xs) (auto split: if_splits sum.splits)
  with rm have "length xs = Suc (length ys)" by blast
  with lt show "((D, Suc i, ys), D, i, xs) \<in> measure (\<lambda>(D, i, xs). length xs - i)"
    by simp
next
  fix D :: "int list" and i :: nat and xs :: "json list"
  assume "i < length xs"
  then show "((D, Suc i, xs), D, i, xs) \<in> measure (\<lambda>(D, i, xs). length xs - i)"
    by simp
qed

text \<open>
  \<^verbatim>\<open>modify_manifest\<close> with the denylist as a parameter. \<^verbatim>\<open>manifest["files"]\<close> raises
  \<^verbatim>\<open>KeyError\<close> on a dict without the key and \<^verbatim>\<open>TypeError\<close> on anything that is not a dict.
  Iterating a dict gives its keys and iterating a string its characters, on which \<^verbatim>\<open>get\<close>
  fails; numbers, booleans and \<^verbatim>\<open>None\<close> are not iterable. The function returns its
  argument, mutated in place.
\<close>

definition modify_manifest_with :: "int list \<Rightarrow> json \<Rightarrow> pyexc + json" where
  "modify_manifest_with D manifest =
     (case manifest of
        JObj kvs \<Rightarrow>
          (case map_of kvs ''files'' of
             None \<Rightarrow> Inl KeyError
           | Some fv \<Rightarrow>
               (case fv of
                  JArr xs \<Rightarrow>
                    (case files_loop D 0 xs of
                       Inl e \<Rightarrow> Inl e
                     | Inr ys \<Rightarrow> Inr (JObj (AList.update ''files'' (JArr ys) kvs)))
                | JObj es \<Rightarrow> if es = [] then Inr manifest else Inl AttributeError
                | JStr s \<Rightarrow> if s = [] then Inr manifest else Inl AttributeError
                | _ \<Rightarrow> Inl TypeError))
      | _ \<Rightarrow> Inl TypeError)"

definition modify_manifest :: "json \<Rightarrow> pyexc + json" where
  "modify_manifest = modify_manifest_with PROJECTS_TO_REMOVE"

text \<open>
  Predicates on the entries of \<^verbatim>\<open>files\<close>. An entry has a denylisted \<^verbatim>\<open>projectID\<close> when the test of
  the loop, \<^verbatim>\<open>file.get("projectID") in PROJECTS_TO_REMOVE\<close>, holds of it; an entry lacks the
  field when its dict has no such key. \<open>manifest_files\<close> reads the \<^verbatim>\<open>files\<close> list of a
  document, and \<open>manifest_doc\<close> is the shape of a manifest: a dict whose \<^verbatim>\<open>files\<close> is a list
  of dicts.
\<close>

definition has_denied_id :: "int list \<Rightarrow> json \<Rightarrow> bool" where
  "has_denied_id D e =
     (case e of JObj kvs \<Rightarrow> py_in (dict_get kvs ''projectID'') D | _ \<Rightarrow> False)"

definition lacks_projectID :: "json \<Rightarrow> bool" where
  "lacks_projectID e =
     (case e of JObj kvs \<Rightarrow> map_of kvs ''projectID'' = None | _ \<Rightarrow> False)"

fun is_obj :: "json \<Rightarrow> bool" where
  "is_obj (JObj kvs) = True"
| "is_obj _ = False"

definition manifest_files :: "json \<Rightarrow> json list" where
  "manifest_files m =
     (case m of
        JObj kvs \<Rightarrow> (case map_of kvs ''files'' of Some (JArr xs) \<Rightarrow> xs | _ \<Rightarrow> [])
      | _ \<Rightarrow> [])"

definition manifest_doc :: "json \<Rightarrow> bool" where
  "manifest_doc m =
     (case m of
        JObj kvs \<Rightarrow>
          (case map_of kvs ''files'' of Some (JArr xs) \<Rightarrow> list_all is_obj xs | _ \<Rightarrow> False)
      | _ \<Rightarrow> False)"

section \<open>The working tree and the archive writer\<close>

text \<open>
  A directory is a tree: a regular file with its bytes, or a directory with its named
  children in listing order. After \<^verbatim>\<open>extractall\<close> the working tree holds only regular files
  and directories. A path is the list of its components; paths inside a tree are relative
  to its root. A file system keeps the names of a directory unique (\<open>wf_tree\<close>).
\<close>

type_synonym path = "string list"

datatype node = File string | Dir "(string \<times> node) list"

fun is_dir :: "node \<Rightarrow> bool" where
  "is_dir (Dir es) = True"
| "is_dir (File c) = False"

fun lookup :: "node \<Rightarrow> path \<Rightarrow> node option" where
  "lookup t [] = Some t"
| "lookup (File c) (n # p) = None"
| "lookup (Dir es) (n # p) = (case map_of es n of None \<Rightarrow> None | Some t \<Rightarrow> lookup t p)"

definition read_file :: "node \<Rightarrow> path \<Rightarrow> string option" where
  "read_file t p = (case lookup t p of Some (File c) \<Rightarrow> Some c | _ \<Rightarrow> None)"

fun wf_tree :: "node \<Rightarrow> bool" where
  "wf_tree (File c) = True"
| "wf_tree (Dir es) = (distinct (map fst es) \<and> list_all (\<lambda>(n, t). wf_tree t) es)"

text \<open>
  \<^verbatim>\<open>os.walk(top)\<close>, top-down: for a directory it yields the triple of its path, the names
  of its subdirectories and the names of its other entries, then walks each subdirectory
  in turn. On something that is not a directory it yields nothing.
\<close>

function os_walk :: "path \<Rightarrow> node \<Rightarrow> (path \<times> string list \<times> string list) list" where
  "os_walk dirpath (File c) = []"
| "os_walk dirpath (Dir es) =
     (dirpath, map fst (filter (\<lambda>(n, t). is_dir t) es), map fst (filter (\<lambda>(n, t). \<not> is_dir t) es))
     # concat (map (\<lambda>(n, t). os_walk (dirpath @ [n]) t) (filter (\<lambda>(n, t). is_dir t) es))"
  by pat_completeness auto
termination
proof (relation "measure (\<lambda>(dirpath, t). size t)")
  show "wf (measure (\<lambda>(dirpath, t). size t))" by simp
next
  fix dirpath :: path and es :: "(string \<times> node) list" and x n t
  assume "x \<in> set (filter (\<lambda>(n, t). is_dir t) es)" "(n, t) = x"
  then have "(n, t) \<in> set es" by auto
  then have "size t < Suc (size_list (size_prod (\<lambda>_. 0) size) es)"
    by (induction es) auto
  then show "((dirpath @ [n], t), dirpath, Dir es) \<in> measure (\<lambda>(dirpath, t). size t)" by simp
qed

text \<open>\<^verbatim>\<open>PurePath.as_posix\<close> of a relative path: its components joined by a slash.\<close>

fun as_posix :: "path \<Rightarrow> string" where
  "as_posix [] = ''.''"
| "as_posix [a] = a"
| "as_posix (a # b # p) = a @ ''/'' @ as_posix (b # p)"

text \<open>
  The outcomes the program does not decide are the fields of an environment: what
  extracting the archive bytes gives (an exception, if any, and the entries written into
  the working directory), what \<^verbatim>\<open>json.load\<close> and \<^verbatim>\<open>json.dumps\<close> return (\<open>None\<close> when they
  raise), whether writing the manifest back raises, whether opening the new archive for
  writing raises, whether \<^verbatim>\<open>ZipFile.write\<close> raises on a given file, the bytes of an archive
  with given entries (the codec, deflated or stored), and whether \<^verbatim>\<open>os.replace\<close> raises.
  An open \<^verbatim>\<open>ZipFile\<close> is the list of its entries so far, each a name and a content.
\<close>

type_synonym zipfile = "(string \<times> string) list"

record env =
  extractall :: "string \<Rightarrow> pyexc option \<times> (string \<times> node) list"
  json_load :: "string \<Rightarrow> json option"
  json_dumps :: "json \<Rightarrow> string option"
  manifest_write_fails :: bool
  zip_open_fails :: bool
  zf_write_fails :: "path \<Rightarrow> bool"
  zip_bytes :: "zipfile \<Rightarrow> string"
  replace_fails :: bool

text \<open>
  \<^verbatim>\<open>zf.write(fpath, arcname)\<close> reads the file at \<open>fpath\<close> and appends it under \<open>arcname\<close>;
  it raises when the file cannot be read or the write fails.
\<close>

definition zf_write :: "env \<Rightarrow> node \<Rightarrow> path \<Rightarrow> string \<Rightarrow> zipfile \<Rightarrow> pyexc option \<times> zipfile" where
  "zf_write env src fpath arcname zf =
     (case read_file src fpath of
        None \<Rightarrow> (Some OSError, zf)
      | Some c \<Rightarrow>
          if zf_write_fails env fpath then (Some OSError, zf)
          else (None, zf @ [(arcname, c)]))"

text \<open>
  The inner loop \<^verbatim>\<open>for file in files\<close> and the outer loop over the triples of the walk. The
  paths are relative to \<open>src_dir\<close>, so \<^verbatim>\<open>fpath.relative_to(src_dir)\<close> is \<open>fpath\<close> itself. An
  exception ends both loops and leaves the entries written so far.
\<close>

fun write_files :: "env \<Rightarrow> node \<Rightarrow> path \<Rightarrow> string list \<Rightarrow> zipfile \<Rightarrow> pyexc option \<times> zipfile" where
  "write_files env src rootp [] zf = (None, zf)"
| "write_files env src rootp (file # files) zf =
     (let fpath = rootp @ [file]; arcname = fpath in
      case zf_write env src fpath (as_posix arcname) zf of
        (Some e, zf') \<Rightarrow> (Some e, zf')
      | (None, zf') \<Rightarrow> write_files env src rootp files zf')"

fun walk_loop :: "env \<Rightarrow> node \<Rightarrow> (path \<times> string list \<times> string list) list \<Rightarrow> zipfile
    \<Rightarrow> pyexc option \<times> zipfile" where
  "walk_loop env src [] zf = (None, zf)"
| "walk_loop env src ((dirpath, dirs, files) # ws) zf =
     (case write_files env src dirpath files zf of
        (Some e, zf') \<Rightarrow> (Some e, zf')
      | (None, zf') \<Rightarrow> walk_loop env src ws zf')"

text \<open>
  \<^verbatim>\<open>rezip_directory(src_dir, dst_zip)\<close>: \<open>src_dir\<close> is given as the tree found there, and the
  result is the exception raised, if any, with the files outside the working tree after the
  call. Leaving the \<^verbatim>\<open>with\<close> block closes the archive, also on an exception, so \<open>dst_zip\<close> then
  holds the entries written so far.
\<close>

definition rezip_directory ::
  "env \<Rightarrow> node \<Rightarrow> path \<Rightarrow> (path \<rightharpoonup> string) \<Rightarrow> pyexc option \<times> (path \<rightharpoonup> string)" where
  "rezip_directory env src_dir dst_zip disk =
     (if zip_open_fails env then (Some OSError, disk)
      else case walk_loop env src_dir (os_walk [] src_dir) [] of
        (r, zf) \<Rightarrow> (r, disk(dst_zip \<mapsto> zip_bytes env zf)))"

text \<open>
  The files of a directory as the specification counts them: every regular file at any
  depth, once, with its path relative to the root and its content.
\<close>

fun tree_files :: "node \<Rightarrow> (path \<times> string) list" where
  "tree_files (File c) = [([], c)]"
| "tree_files (Dir es) = concat (map (\<lambda>(n, t). map (\<lambda>(p, c). (n # p, c)) (tree_files t)) es)"

text \<open>The entries that one triple of the walk contributes to the archive.\<close>

definition dir_entries :: "node \<Rightarrow> path \<times> string list \<times> string list \<Rightarrow> zipfile" where
  "dir_entries src = (\<lambda>(dirpath, dirs, files).
     map (\<lambda>f. (as_posix (dirpath @ [f]), the (read_file src (dirpath @ [f])))) files)"

section \<open>The coordinator\<close>

text \<open>
  \<^verbatim>\<open>Path("./build/curseforge/GameNight-3.0.0.zip")\<close> by its components, and the two
  \<^verbatim>\<open>pathlib\<close> operations that \<^verbatim>\<open>main\<close> applies to it: \<^verbatim>\<open>suffix\<close> is the part of the last
  component from its last dot on, if that dot is neither its first nor its last character;
  \<^verbatim>\<open>with_suffix\<close> replaces that part and raises \<^verbatim>\<open>ValueError\<close> on an invalid suffix or an
  empty name.
\<close>

definition DEFAULT_ZIP :: path where
  "DEFAULT_ZIP = [''build'', ''curseforge'', ''GameNight-3.0.0.zip'']"

definition rfind :: "string \<Rightarrow> char \<Rightarrow> int" where
  "rfind s c = (case filter (\<lambda>i. s ! i = c) (rev [0..<length s]) of [] \<Rightarrow> - 1 | i # _ \<Rightarrow> int i)"

definition suffix :: "path \<Rightarrow> string" where
  "suffix p =
     (if p = [] then []
      else let name = last p; i = rfind name CHR ''.'' in
        if 0 < i \<and> i < int (length name) - 1 then drop (nat i) name else [])"

definition with_suffix :: "path \<Rightarrow> string \<Rightarrow> pyexc + path" where
  "with_suffix p sfx =
     (if CHR ''/'' \<in> set sfx \<or> (sfx \<noteq> [] \<and> hd sfx \<noteq> CHR ''.'') \<or> sfx = ''.'' then Inl ValueError
      else if p = [] then Inl ValueError
      else let name = last p; old_suffix = suffix p;
               name' = (if old_suffix = [] then name @ sfx
                        else take (length name - length old_suffix) name @ sfx)
           in Inr (butlast p @ [name']))"

text \<open>
  The state of the world a run can change: the regular files outside the working tree, by
  path, and the temporary working directory, when it exists. The working directory is fresh
  and lies elsewhere, so no write into it touches \<open>disk\<close>.
\<close>

record world =
  disk :: "path \<rightharpoonup> string"
  tmpdir :: "node option"

text \<open>
  A run ends by \<^verbatim>\<open>sys.exit(n)\<close>, by an exception that nothing catches (the interpreter then
  exits with status 1), or by reaching the end of \<^verbatim>\<open>main\<close>.
\<close>

datatype outcome = Exit nat | Uncaught pyexc | Completed

fun exit_status :: "outcome \<Rightarrow> nat" where
  "exit_status (Exit n) = n"
| "exit_status (Uncaught e) = 1"
| "exit_status Completed = 0"

text \<open>
  A transform takes the loaded document and either raises, or leaves its argument in some
  state and returns a document. \<^verbatim>\<open>modify_manifest\<close> mutates its argument and returns that same
  object (\<open>in_place\<close>).
\<close>

type_synonym transform = "json \<Rightarrow> pyexc + json \<times> json"

definition in_place :: "(json \<Rightarrow> pyexc + json) \<Rightarrow> transform" where
  "in_place f m = (case f m of Inl e \<Rightarrow> Inl e | Inr m' \<Rightarrow> Inr (m', m'))"

text \<open>
  Opening and parsing \<^verbatim>\<open>manifest.json\<close> at the root of the working tree; a missing file, a
  directory of that name and bytes that are not JSON all raise inside the same \<^verbatim>\<open>try\<close>.
\<close>

definition read_manifest :: "env \<Rightarrow> node \<Rightarrow> json option" where
  "read_manifest env tree =
     (case read_file tree [''manifest.json''] of
        None \<Rightarrow> None
      | Some bytes \<Rightarrow> json_load env bytes)"

text \<open>Writing a file at the root of the working tree, and \<^verbatim>\<open>os.replace\<close> when it succeeds.\<close>

definition write_text :: "node \<Rightarrow> string \<Rightarrow> string \<Rightarrow> node" where
  "write_text tree name s =
     (case tree of Dir es \<Rightarrow> Dir (AList.update name (File s) es) | File c \<Rightarrow> File c)"

definition os_replace :: "path \<Rightarrow> path \<Rightarrow> (path \<rightharpoonup> string) \<Rightarrow> (path \<rightharpoonup> string)" where
  "os_replace src dst d = (d(dst := d src))(src := None)"

text \<open>
  The body of the \<^verbatim>\<open>with tempfile.TemporaryDirectory()\<close> block of \<^verbatim>\<open>main\<close>, step by step. The
  call of the transform stands outside every \<^verbatim>\<open>try\<close>, and its result is discarded: what is
  serialised is the object that was passed in. When writing the manifest back fails, the
  working tree is left as it was: nothing reads it before it is deleted. The progress
  messages are not modelled.
\<close>

definition main_body :: "transform \<Rightarrow> env \<Rightarrow> world \<Rightarrow> outcome \<times> world" where
  "main_body tr env w =
     (case disk w DEFAULT_ZIP of
        None \<Rightarrow> (Uncaught OSError, w)
      | Some zbytes \<Rightarrow>
     (case extractall env zbytes of
        (Some e, es) \<Rightarrow>
          (if e = BadZipFile then Exit 3 else Uncaught e, w\<lparr>tmpdir := Some (Dir es)\<rparr>)
      | (None, es) \<Rightarrow>
     (let tree = Dir es; w1 = w\<lparr>tmpdir := Some tree\<rparr> in
      case read_manifest env tree of
        None \<Rightarrow> (Exit 5, w1)
      | Some manifest \<Rightarrow>
     (case tr manifest of
        Inl e \<Rightarrow> (Uncaught e, w1)
      | Inr (manifest', returned) \<Rightarrow>
     (case json_dumps env manifest' of
        None \<Rightarrow> (Exit 8, w1)
      | Some json_str \<Rightarrow>
     (if manifest_write_fails env then (Exit 9, w1)
      else
        let tree2 = write_text tree ''manifest.json'' (json_str @ [CHR 0x0A]);
            w2 = w1\<lparr>tmpdir := Some tree2\<rparr>
        in
     (case with_suffix DEFAULT_ZIP (suffix DEFAULT_ZIP @ ''.new'') of
        Inl e \<Rightarrow> (Uncaught e, w2)
      | Inr new_zip_path \<Rightarrow>
     (case rezip_directory env tree2 new_zip_path (disk w2) of
        (Some e, d) \<Rightarrow> (Exit 11, w2\<lparr>disk := d\<rparr>)
      | (None, d) \<Rightarrow>
     (if replace_fails env then (Exit 12, w2\<lparr>disk := d\<rparr>)
      else (Completed, w2\<lparr>disk := os_replace new_zip_path DEFAULT_ZIP d\<rparr>))))))))))"

text \<open>
  \<^verbatim>\<open>with tempfile.TemporaryDirectory() as tmpdir\<close>: the directory is created empty, the body
  runs, and leaving the block deletes the directory, whether the body returned, called
  \<^verbatim>\<open>sys.exit\<close> or raised.
\<close>

definition with_TemporaryDirectory ::
  "(world \<Rightarrow> outcome \<times> world) \<Rightarrow> world \<Rightarrow> outcome \<times> world" where
  "with_TemporaryDirectory body w =
     (case body (w\<lparr>tmpdir := Some (Dir [])\<rparr>) of (r, w') \<Rightarrow> (r, w'\<lparr>tmpdir := None\<rparr>))"

definition main_with :: "transform \<Rightarrow> env \<Rightarrow> world \<Rightarrow> outcome \<times> world" where
  "main_with tr env w =
     (if disk w DEFAULT_ZIP = None then (Exit 1, w)
      else with_TemporaryDirectory (main_body tr env) w)"

definition main :: "env \<Rightarrow> world \<Rightarrow> outcome \<times> world" where
  "main = main_with (in_place modify_manifest)"

definition new_zip :: path where
  "new_zip = [''build'', ''curseforge'', ''GameNight-3.0.0.zip.new'']"

definition run_status :: "transform \<Rightarrow> env \<Rightarrow> world \<Rightarrow> nat" where
  "run_status tr env w = exit_status (fst (main_with tr env w))"

text \<open>
  A run to evaluate: an archive whose manifest lists one denylisted project and one other,
  with one more file in a subdirectory. The bytes of the manifest are abbreviated by names.
\<close>

definition example_manifest :: json where
  "example_manifest =
     JObj [(''name'', JStr ''GameNight''),
           (''files'', JArr [JObj [(''projectID'', JInt 890127), (''fileID'', JInt 1)],
                             JObj [(''projectID'', JInt 7), (''fileID'', JInt 2)]])]"

definition example_env :: env where
  "example_env =
     \<lparr>extractall = (\<lambda>z. (None, [(''manifest.json'', File ''manifest-bytes''),
                                  (''overrides'', Dir [(''options.txt'', File ''fov'')])])),
      json_load = (\<lambda>s. if s = ''manifest-bytes'' then Some example_manifest else None),
      json_dumps = (\<lambda>j. if manifest_files j = [JObj [(''projectID'', JInt 7), (''fileID'', JInt 2)]]
                        then Some ''patched-bytes'' else Some ''other-bytes''),
      manifest_write_fails = False,
      zip_open_fails = False,
      zf_write_fails = (\<lambda>p. False),
      zip_bytes = (\<lambda>zf. concat (map (\<lambda>(n, c). n @ ''='' @ c @ '';'') zf)),
      replace_fails = False\<rparr>"

definition example_world :: world where
  "example_world = \<lparr>disk = [DEFAULT_ZIP \<mapsto> ''old-archive''], tmpdir = None\<rparr>"

section \<open>Equality, removal and the loop\<close>

lemma py_eq_refl: "wf_json a \<Longrightarrow> py_eq a a"
proof (induction a)
  case (JArr xs)
  then show ?case by (auto simp: list_all2_same list_all_iff)
next
  case (JObj kvs)
  have "list_all (\<lambda>(k, v). case map_of kvs k of None \<Rightarrow> False | Some w \<Rightarrow> py_eq v w) kvs"
    unfolding list_all_iff
  proof (clarify)
    fix k v assume kv: "(k, v) \<in> set kvs"
    with JObj.prems have "map_of kvs k = Some v" by simp
    moreover from kv JObj.prems have "wf_json v" by (auto simp: list_all_iff)
    with kv JObj.IH have "py_eq v v" by fastforce
    ultimately show "case map_of kvs k of None \<Rightarrow> False | Some w \<Rightarrow> py_eq v w" by simp
  qed
  then show ?case by simp
qed simp_all

lemma py_eq_obj_keys:
  assumes eq: "py_eq (JObj a) (JObj b)" and d: "distinct (map fst a)"
  shows "fst ` set a = fst ` set b"
proof -
  from eq have len: "length a = length b"
    and all: "\<forall>(k, v) \<in> set a. map_of b k \<noteq> None"
    by (auto simp: list_all_iff split: option.splits)
  have sub: "fst ` set a \<subseteq> fst ` set b"
  proof
    fix k assume "k \<in> fst ` set a"
    then obtain v where "(k, v) \<in> set a" by auto
    with all have "map_of b k \<noteq> None" by auto
    then show "k \<in> fst ` set b" by (simp add: map_of_eq_None_iff)
  qed
  have "card (fst ` set b) \<le> length b" 
    by (metis card_length length_map set_map)
  also have "\<dots> = card (fst ` set a)"
    using d len by (metis distinct_card length_map set_map)
  finally show ?thesis using sub by (simp add: card_seteq)
qed

lemma py_eq_obj_lookup:
  assumes eq: "py_eq (JObj a) (JObj b)" and d: "distinct (map fst a)"
    and b: "map_of b k = Some w"
  shows "\<exists>v. map_of a k = Some v \<and> py_eq v w"
proof -
  from b have "k \<in> fst ` set b" by (metis map_of_eq_None_iff option.distinct(1))
  with py_eq_obj_keys[OF eq d] have "k \<in> fst ` set a" by simp
  then obtain v where kv: "(k, v) \<in> set a" by auto
  with d have "map_of a k = Some v" by simp
  moreover from eq kv have "case map_of b k of None \<Rightarrow> False | Some w \<Rightarrow> py_eq v w"
    by (auto simp: list_all_iff)
  with b have "py_eq v w" by simp
  ultimately show ?thesis by blast
qed

lemma py_eq_int_trans: "py_eq v w \<Longrightarrow> py_eq (JInt d) w \<Longrightarrow> py_eq (JInt d) v"
  by (cases v; cases w) (auto split: option.splits)

lemma py_eq_denied:
  assumes eq: "py_eq e f" and wf: "wf_json e" and den: "has_denied_id D f"
  shows "has_denied_id D e"
proof -
  from den obtain kws where f: "f = JObj kws" and pin: "py_in (dict_get kws ''projectID'') D"
    by (auto simp: has_denied_id_def split: json.splits)
  from pin obtain d where d: "d \<in> set D" and pd: "py_eq (JInt d) (dict_get kws ''projectID'')"
    by (auto simp: py_in_def list_ex_iff)
  from pd obtain w where w: "map_of kws ''projectID'' = Some w" and pw: "py_eq (JInt d) w"
    by (auto simp: dict_get_def split: option.splits)
  from eq f obtain kvs where e: "e = JObj kvs"
    by (cases e) (auto split: option.splits)
  from wf e have dist: "distinct (map fst kvs)" by simp
  from py_eq_obj_lookup[OF eq[unfolded e f] dist w]
  obtain v where v: "map_of kvs ''projectID'' = Some v" and vw: "py_eq v w" by blast
  from py_eq_int_trans[OF vw pw] v d show ?thesis
    by (auto simp: e has_denied_id_def py_in_def list_ex_iff dict_get_def)
qed

lemma list_remove_set: "list_remove xs v = Inr ys \<Longrightarrow> set ys \<subseteq> set xs"
  by (induction xs arbitrary: ys) (auto split: if_splits sum.splits)

lemma list_remove_filter:
  assumes "list_remove xs v = Inr ys" and "\<And>x. x \<in> set xs \<Longrightarrow> py_eq x v \<Longrightarrow> \<not> P x"
  shows "filter P ys = filter P xs"
  using assms by (induction xs arbitrary: ys) (auto split: if_splits sum.splits)

lemma list_remove_ok:
  "\<exists>x \<in> set xs. py_eq x v \<Longrightarrow> \<exists>ys. list_remove xs v = Inr ys"
proof (induction xs)
  case Nil
  then show ?case by simp
next
  case (Cons a xs)
  show ?case
  proof (cases "py_eq a v")
    case True
    then show ?thesis by simp
  next
    case False
    with Cons.prems have "\<exists>x \<in> set xs. py_eq x v" by auto
    with Cons.IH obtain ys where "list_remove xs v = Inr ys" by blast
    with False show ?thesis by simp
  qed
qed

lemma files_loop_filter:
  assumes "files_loop D i xs = Inr ys" and "list_all wf_json xs"
    and "\<forall>x. has_denied_id D x \<longrightarrow> \<not> P x"
  shows "filter P ys = filter P xs"
  using assms
proof (induction D i xs rule: files_loop.induct)
  case (1 D i xs)
  show ?case
  proof (cases "i < length xs")
    case False
    with "1.prems" show ?thesis by simp
  next
    case lt: True
    with "1.prems"(1) obtain kvs where obj: "xs ! i = JObj kvs"
      by (auto split: json.splits)
    show ?thesis
    proof (cases "py_in (dict_get kvs ''projectID'') D")
      case False
      with lt obj "1.prems" "1.IH"(2) show ?thesis by simp
    next
      case True
      with lt obj "1.prems"(1) obtain zs where rm: "list_remove xs (xs ! i) = Inr zs"
        and rest: "files_loop D (Suc i) zs = Inr ys"
        by (auto split: sum.splits)
      from True obj have den: "has_denied_id D (xs ! i)" by (simp add: has_denied_id_def)
      have "filter P zs = filter P xs"
      proof (rule list_remove_filter[OF rm])
        fix x assume "x \<in> set xs" "py_eq x (xs ! i)"
        with "1.prems"(2) den have "has_denied_id D x"
          by (auto simp: list_all_iff intro: py_eq_denied)
        with "1.prems"(3) show "\<not> P x" by blast
      qed
      moreover from list_remove_set[OF rm] "1.prems"(2) have "list_all wf_json zs"
        by (auto simp: list_all_iff)
      ultimately show ?thesis
        using "1.IH"(1)[OF lt obj True rm rest _ "1.prems"(3)] by simp
    qed
  qed
qed

lemma files_loop_total:
  assumes "list_all is_obj xs" and "list_all wf_json xs"
  shows "\<exists>ys. files_loop D i xs = Inr ys"
  using assms
proof (induction D i xs rule: files_loop.induct)
  case (1 D i xs)
  show ?case
  proof (cases "i < length xs")
    case False
    then show ?thesis by simp
  next
    case lt: True
    with "1.prems"(1) have "is_obj (xs ! i)" by (simp add: list_all_length)
    then obtain kvs where obj: "xs ! i = JObj kvs" by (cases "xs ! i") auto
    show ?thesis
    proof (cases "py_in (dict_get kvs ''projectID'') D")
      case False
      with lt obj "1.prems" "1.IH"(2) show ?thesis by simp
    next
      case True
      from lt "1.prems"(2) have "py_eq (xs ! i) (xs ! i)"
        by (simp add: list_all_length py_eq_refl)
      with lt have "\<exists>x \<in> set xs. py_eq x (xs ! i)" by (meson nth_mem)
      then obtain zs where rm: "list_remove xs (xs ! i) = Inr zs"
        using list_remove_ok by blast
      from list_remove_set[OF rm] "1.prems" have "list_all is_obj zs" "list_all wf_json zs"
        by (auto simp: list_all_iff)
      from "1.IH"(1)[OF lt obj True rm this] obtain ys where "files_loop D (Suc i) zs = Inr ys"
        by blast
      with lt obj True rm show ?thesis by simp
    qed
  qed
qed

lemma files_loop_unchanged:
  assumes "list_all is_obj xs" and "list_all (\<lambda>e. \<not> has_denied_id D e) xs"
  shows "files_loop D i xs = Inr xs"
  using assms
proof (induction D i xs rule: files_loop.induct)
  case (1 D i xs)
  show ?case
  proof (cases "i < length xs")
    case False
    then show ?thesis by simp
  next
    case lt: True
    with "1.prems"(1) have "is_obj (xs ! i)" by (simp add: list_all_length)
    then obtain kvs where obj: "xs ! i = JObj kvs" by (cases "xs ! i") auto
    from lt "1.prems"(2) have "\<not> has_denied_id D (xs ! i)" by (simp add: list_all_length)
    with obj have nd: "\<not> py_in (dict_get kvs ''projectID'') D" by (simp add: has_denied_id_def)
    with lt obj "1.prems" "1.IH"(2) show ?thesis by simp
  qed
qed

lemma update_other_nth:
  "i < length al \<Longrightarrow> fst (al ! i) \<noteq> k \<Longrightarrow> AList.update k v al ! i = al ! i"
proof (induction al arbitrary: i)
  case Nil
  then show ?case by simp
next
  case (Cons p al)
  then show ?case by (cases i; cases p) auto
qed

lemma update_present_keys:
  "map_of al k = Some w \<Longrightarrow> map fst (AList.update k v al) = map fst al"
  by (induction al) (auto split: if_splits)


lemma modify_manifest_with_Inr:
  assumes "modify_manifest_with D m = Inr m'"
  obtains kvs fv where "m = JObj kvs" and "map_of kvs ''files'' = Some fv"
    and "(\<exists>xs ys. fv = JArr xs \<and> files_loop D 0 xs = Inr ys \<and>
            m' = JObj (AList.update ''files'' (JArr ys) kvs))
         \<or> ((fv = JObj [] \<or> fv = JStr []) \<and> m' = m)"
proof -
  from assms obtain kvs where m: "m = JObj kvs"
    by (cases m) (simp_all add: modify_manifest_with_def)
  from assms m obtain fv where fv: "map_of kvs ''files'' = Some fv"
    by (cases "map_of kvs ''files''") (simp_all add: modify_manifest_with_def)
  have "(\<exists>xs ys. fv = JArr xs \<and> files_loop D 0 xs = Inr ys \<and>
            m' = JObj (AList.update ''files'' (JArr ys) kvs))
         \<or> ((fv = JObj [] \<or> fv = JStr []) \<and> m' = m)"
  proof (cases fv)
    case (JArr xs)
    with assms m fv show ?thesis
      by (cases "files_loop D 0 xs") (simp_all add: modify_manifest_with_def)
  next
    case (JObj es)
    with assms m fv show ?thesis
      by (simp add: modify_manifest_with_def split: if_splits)
  next
    case (JStr s)
    with assms m fv show ?thesis
      by (simp add: modify_manifest_with_def split: if_splits)
  qed (use assms m fv in \<open>simp_all add: modify_manifest_with_def\<close>)
  with m fv show ?thesis by (rule that)
qed

lemma modify_manifest_with_filter:
  assumes wf: "wf_json m" and run: "modify_manifest_with D m = Inr m'"
    and P: "\<forall>x. has_denied_id D x \<longrightarrow> \<not> P x"
  shows "filter P (manifest_files m') = filter P (manifest_files m)"
proof -
  from run obtain kvs fv where m: "m = JObj kvs" and fv: "map_of kvs ''files'' = Some fv"
    and alt: "(\<exists>xs ys. fv = JArr xs \<and> files_loop D 0 xs = Inr ys \<and>
            m' = JObj (AList.update ''files'' (JArr ys) kvs))
         \<or> ((fv = JObj [] \<or> fv = JStr []) \<and> m' = m)"
    by (rule modify_manifest_with_Inr)
  from alt show ?thesis
  proof
    assume "\<exists>xs ys. fv = JArr xs \<and> files_loop D 0 xs = Inr ys \<and>
            m' = JObj (AList.update ''files'' (JArr ys) kvs)"
    then obtain xs ys where xs: "fv = JArr xs" and loop: "files_loop D 0 xs = Inr ys"
      and m': "m' = JObj (AList.update ''files'' (JArr ys) kvs)" by blast
    from fv xs have "(''files'', JArr xs) \<in> set kvs" by (simp add: map_of_SomeD)
    with wf m have "wf_json (JArr xs)" by (auto simp: list_all_iff)
    then have "list_all wf_json xs" by simp
    from files_loop_filter[OF loop this P] have "filter P ys = filter P xs" .
    with m m' fv xs show ?thesis
      by (simp add: manifest_files_def update_conv')
  next
    assume "(fv = JObj [] \<or> fv = JStr []) \<and> m' = m"
    then show ?thesis by simp
  qed
qed

lemma manifest_docE:
  assumes "manifest_doc m"
  obtains kvs xs where "m = JObj kvs" and "map_of kvs ''files'' = Some (JArr xs)"
    and "list_all is_obj xs"
proof -
  from assms obtain kvs where m: "m = JObj kvs"
    by (cases m) (simp_all add: manifest_doc_def)
  from assms m obtain fv where fv: "map_of kvs ''files'' = Some fv"
    by (cases "map_of kvs ''files''") (simp_all add: manifest_doc_def)
  from assms m fv obtain xs where "fv = JArr xs" "list_all is_obj xs"
    by (cases fv) (simp_all add: manifest_doc_def)
  with m fv show ?thesis by (auto intro: that)
qed

lemma modify_manifest_with_total:
  assumes wf: "wf_json m" and doc: "manifest_doc m"
  shows "\<exists>m'. modify_manifest_with D m = Inr m'"
proof -
  from doc obtain kvs xs where m: "m = JObj kvs" and fv: "map_of kvs ''files'' = Some (JArr xs)"
    and objs: "list_all is_obj xs"
    by (rule manifest_docE)
  from fv have "(''files'', JArr xs) \<in> set kvs" by (simp add: map_of_SomeD)
  with wf m have "wf_json (JArr xs)" by (auto simp: list_all_iff)
  then have "list_all wf_json xs" by simp
  from files_loop_total[OF objs this] obtain ys where "files_loop D 0 xs = Inr ys" by blast
  with m fv show ?thesis by (simp add: modify_manifest_with_def)
qed

lemma modify_manifest_with_fixpoint:
  assumes doc: "manifest_doc m"
    and clean: "list_all (\<lambda>e. \<not> has_denied_id D e) (manifest_files m)"
  shows "modify_manifest_with D m = Inr m"
proof -
  from doc obtain kvs xs where m: "m = JObj kvs" and fv: "map_of kvs ''files'' = Some (JArr xs)"
    and objs: "list_all is_obj xs"
    by (rule manifest_docE)
  from clean m fv have "list_all (\<lambda>e. \<not> has_denied_id D e) xs"
    by (simp add: manifest_files_def)
  from files_loop_unchanged[OF objs this] have "files_loop D 0 xs = Inr xs" .
  moreover from fv have "AList.update ''files'' (JArr xs) kvs = kvs"
    by (rule update_triv)
  ultimately show ?thesis using m fv by (simp add: modify_manifest_with_def)
qed

lemma lacks_not_denied: "lacks_projectID e \<Longrightarrow> \<not> has_denied_id D e"
  by (cases e)
    (auto simp: lacks_projectID_def has_denied_id_def dict_get_def py_in_def list_ex_iff)

lemma files_loop_skips_lacking:
  assumes "i < length xs" and "lacks_projectID (xs ! i)"
  shows "files_loop D i xs = files_loop D (Suc i) xs"
proof -
  from assms(2) obtain kvs where obj: "xs ! i = JObj kvs" and no: "map_of kvs ''projectID'' = None"
    by (cases "xs ! i") (simp_all add: lacks_projectID_def)
  from no have "\<not> py_in (dict_get kvs ''projectID'') D"
    by (simp add: dict_get_def py_in_def list_ex_iff)
  with assms(1) obj show ?thesis by (subst files_loop.simps) simp
qed

section \<open>The walk and the archive\<close>

lemma write_files_ok:
  assumes "\<forall>p. \<not> zf_write_fails env p"
    and "\<forall>f \<in> set files. read_file src (rootp @ [f]) \<noteq> None"
  shows "write_files env src rootp files zf
         = (None, zf @ dir_entries src (rootp, dirs, files))"
  using assms(2)
proof (induction files arbitrary: zf)
  case Nil
  then show ?case by (simp add: dir_entries_def)
next
  case (Cons f files)
  from Cons.prems obtain c where c: "read_file src (rootp @ [f]) = Some c" by auto
  with assms(1) have "zf_write env src (rootp @ [f]) (as_posix (rootp @ [f])) zf
      = (None, zf @ [(as_posix (rootp @ [f]), c)])"
    by (simp add: zf_write_def)
  moreover from Cons have "write_files env src rootp files (zf @ [(as_posix (rootp @ [f]), c)])
      = (None, (zf @ [(as_posix (rootp @ [f]), c)]) @ dir_entries src (rootp, dirs, files))"
    by simp
  ultimately show ?case using c by (simp add: dir_entries_def)
qed

lemma walk_loop_ok:
  assumes "\<forall>p. \<not> zf_write_fails env p"
    and "\<forall>(dirpath, dirs, files) \<in> set ws. \<forall>f \<in> set files. read_file src (dirpath @ [f]) \<noteq> None"
  shows "walk_loop env src ws zf = (None, zf @ concat (map (dir_entries src) ws))"
  using assms(2)
proof (induction ws arbitrary: zf)
  case Nil
  then show ?case by simp
next
  case (Cons w ws)
  obtain dirpath dirs files where w: "w = (dirpath, dirs, files)" by (cases w)
  with Cons.prems have "\<forall>f \<in> set files. read_file src (dirpath @ [f]) \<noteq> None" by simp
  from write_files_ok[OF assms(1) this]
  have "write_files env src dirpath files zf = (None, zf @ dir_entries src w)"
    unfolding w .
  moreover from Cons have "walk_loop env src ws (zf @ dir_entries src w)
      = (None, (zf @ dir_entries src w) @ concat (map (dir_entries src) ws))" by simp
  ultimately show ?case using w by simp
qed

lemma lookup_append:
  "lookup t (p @ q) = (case lookup t p of None \<Rightarrow> None | Some u \<Rightarrow> lookup u q)"
  by (induction t p rule: lookup.induct) (auto split: option.splits)

lemma mset_concat_split:
  "mset (concat (map f xs))
   = mset (concat (map f (filter P xs))) + mset (concat (map f (filter (\<lambda>x. \<not> P x) xs)))"
  by (induction xs) auto

lemma mset_concat_cong:
  "(\<And>x. x \<in> set xs \<Longrightarrow> mset (f x) = mset (g x))
   \<Longrightarrow> mset (concat (map f xs)) = mset (concat (map g xs))"
  by (induction xs) auto

lemma concat_map_concat:
  "concat (map g (concat xss)) = concat (map (\<lambda>xs. concat (map g xs)) xss)"
  by (induction xss) auto

lemma concat_map_single: "concat (map (\<lambda>x. [h x]) xs) = map h xs"
  by (induction xs) auto

lemma lookup_child:
  assumes "lookup src dirpath = Some (Dir es)" and "distinct (map fst es)" and "(n, t) \<in> set es"
  shows "lookup src (dirpath @ [n]) = Some t"
proof -
  from assms(2,3) have "map_of es n = Some t" by simp
  with assms(1) show ?thesis by (simp add: lookup_append)
qed

lemma os_walk_readable:
  assumes "wf_tree t" and "lookup src dirpath = Some t"
  shows "\<forall>(dp, dirs, files) \<in> set (os_walk dirpath t).
           \<forall>f \<in> set files. read_file src (dp @ [f]) \<noteq> None"
  using assms
proof (induction dirpath t rule: os_walk.induct)
  case (1 dirpath c)
  then show ?case by simp
next
  case (2 dirpath es)
  from "2.prems"(1) have dist: "distinct (map fst es)" by simp
  have here: "\<forall>f \<in> set (map fst (filter (\<lambda>(n, t). \<not> is_dir t) es)).
      read_file src (dirpath @ [f]) \<noteq> None"
  proof
    fix f assume "f \<in> set (map fst (filter (\<lambda>(n, t). \<not> is_dir t) es))"
    then obtain t where ft: "(f, t) \<in> set es" and nd: "\<not> is_dir t" by auto
    from nd obtain c where "t = File c" by (cases t) auto
    with lookup_child[OF "2.prems"(2) dist ft] show "read_file src (dirpath @ [f]) \<noteq> None"
      by (simp add: read_file_def)
  qed
  have below: "\<forall>(dp, dirs, files) \<in> set (os_walk (dirpath @ [n]) t).
           \<forall>f \<in> set files. read_file src (dp @ [f]) \<noteq> None"
    if "(n, t) \<in> set (filter (\<lambda>(n, t). is_dir t) es)" for n t
  proof -
    from that have nt: "(n, t) \<in> set es" by simp
    with "2.prems"(1) have "wf_tree t" by (auto simp: list_all_iff)
    moreover from lookup_child[OF "2.prems"(2) dist nt]
    have "lookup src (dirpath @ [n]) = Some t" .
    ultimately show ?thesis using "2.IH"[OF that refl] by blast
  qed
  show ?case
  proof (clarify)
    fix dp dirs files f
    assume mem: "(dp, dirs, files) \<in> set (os_walk dirpath (Dir es))" and f: "f \<in> set files"
    from mem have "(dp, dirs, files) = (dirpath, map fst (filter (\<lambda>(n, t). is_dir t) es),
          map fst (filter (\<lambda>(n, t). \<not> is_dir t) es))
        \<or> (\<exists>n t. (n, t) \<in> set (filter (\<lambda>(n, t). is_dir t) es) \<and>
              (dp, dirs, files) \<in> set (os_walk (dirpath @ [n]) t))"
      by (auto simp del: set_filter)
    then show "\<exists>y. read_file src (dp @ [f]) = Some y"
    proof
      assume "(dp, dirs, files) = (dirpath, map fst (filter (\<lambda>(n, t). is_dir t) es),
          map fst (filter (\<lambda>(n, t). \<not> is_dir t) es))"
      with here f show ?thesis by blast
    next
      assume "\<exists>n t. (n, t) \<in> set (filter (\<lambda>(n, t). is_dir t) es) \<and>
              (dp, dirs, files) \<in> set (os_walk (dirpath @ [n]) t)"
      then obtain n t where "(n, t) \<in> set (filter (\<lambda>(n, t). is_dir t) es)"
        and "(dp, dirs, files) \<in> set (os_walk (dirpath @ [n]) t)" by blast
      with below[of n t] f show ?thesis by fastforce
    qed
  qed
qed

lemma os_walk_entries:
  assumes "wf_tree t" and "lookup src dirpath = Some t" and "is_dir t"
  shows "mset (concat (map (dir_entries src) (os_walk dirpath t)))
         = mset (map (\<lambda>(p, c). (as_posix (dirpath @ p), c)) (tree_files t))"
  using assms
proof (induction dirpath t rule: os_walk.induct)
  case (1 dirpath c)
  then show ?case by simp
next
  case (2 dirpath es)
  let ?D = "filter (\<lambda>(n, t). is_dir t) es"
  let ?F = "filter (\<lambda>x. \<not> (case x of (n, t) \<Rightarrow> is_dir t)) es"
  let ?GH = "\<lambda>(n, t). map (\<lambda>(p, c). (as_posix (dirpath @ n # p), c)) (tree_files t)"
  from "2.prems"(1) have dist: "distinct (map fst es)" by simp
  have rhs: "map (\<lambda>(p, c). (as_posix (dirpath @ p), c)) (tree_files (Dir es))
      = concat (map ?GH es)"
    by (simp add: map_concat comp_def case_prod_unfold)
  have files: "dir_entries src (dirpath, map fst ?D, map fst ?F) = concat (map ?GH ?F)"
  proof -
    have "?GH x = [(as_posix (dirpath @ [fst x]), the (read_file src (dirpath @ [fst x])))]"
      if "x \<in> set ?F" for x
    proof -
      obtain n t where x: "x = (n, t)" by (cases x)
      with that have nt: "(n, t) \<in> set es" and "\<not> is_dir t" by auto
      then obtain c where t: "t = File c" by (cases t) auto
      from lookup_child[OF "2.prems"(2) dist nt] t
      have "read_file src (dirpath @ [n]) = Some c" by (simp add: read_file_def)
      with x t show ?thesis by simp
    qed
    then have "map ?GH ?F
        = map (\<lambda>x. [(as_posix (dirpath @ [fst x]), the (read_file src (dirpath @ [fst x])))]) ?F"
      by (intro map_cong refl)
    then have "concat (map ?GH ?F)
        = map (\<lambda>x. (as_posix (dirpath @ [fst x]), the (read_file src (dirpath @ [fst x])))) ?F"
      by (simp only: concat_map_single)
    moreover have "dir_entries src (dirpath, map fst ?D, map fst ?F)
        = map (\<lambda>x. (as_posix (dirpath @ [fst x]), the (read_file src (dirpath @ [fst x])))) ?F"
      by (simp add: dir_entries_def comp_def)
    ultimately show ?thesis by simp
  qed
  have dirs: "mset (concat (map (\<lambda>(n, t). concat (map (dir_entries src) (os_walk (dirpath @ [n]) t))) ?D))
      = mset (concat (map ?GH ?D))"
  proof (rule mset_concat_cong)
    fix x assume xD: "x \<in> set ?D"
    obtain n t where x: "x = (n, t)" by (cases x)
    with xD have nt: "(n, t) \<in> set es" and d: "is_dir t" by auto
    from nt "2.prems"(1) have "wf_tree t" by (auto simp: list_all_iff)
    from "2.IH"[OF xD[unfolded x] refl this lookup_child[OF "2.prems"(2) dist nt] d] x
    show "mset (case x of (n, t) \<Rightarrow> concat (map (dir_entries src) (os_walk (dirpath @ [n]) t)))
        = mset (?GH x)" by simp
  qed
  have "concat (map (dir_entries src) (os_walk dirpath (Dir es)))
      = dir_entries src (dirpath, map fst ?D, map fst ?F)
        @ concat (map (\<lambda>(n, t). concat (map (dir_entries src) (os_walk (dirpath @ [n]) t))) ?D)"
    by (simp add: concat_map_concat comp_def case_prod_unfold)
  then have "mset (concat (map (dir_entries src) (os_walk dirpath (Dir es))))
      = mset (concat (map ?GH ?F)) + mset (concat (map ?GH ?D))"
    using files dirs by simp
  also have "\<dots> = mset (concat (map ?GH es))"
    using mset_concat_split[of ?GH es "\<lambda>(n, t). is_dir t"] by simp
  finally show ?case using rhs by simp
qed


lemma write_files_None:
  "write_files env src rootp files zf = (None, zf')
   \<Longrightarrow> zf' = zf @ dir_entries src (rootp, dirs, files)"
proof (induction files arbitrary: zf)
  case Nil
  then show ?case by (simp add: dir_entries_def)
next
  case (Cons f files)
  from Cons.prems obtain c where c: "read_file src (rootp @ [f]) = Some c"
    and nf: "\<not> zf_write_fails env (rootp @ [f])"
    by (cases "read_file src (rootp @ [f])") (auto simp: zf_write_def Let_def split: if_splits)
  with Cons.prems have "write_files env src rootp files (zf @ [(as_posix (rootp @ [f]), c)])
      = (None, zf')"
    by (simp add: zf_write_def)
  from Cons.IH[OF this] c show ?case by (simp add: dir_entries_def)
qed

lemma walk_loop_None:
  "walk_loop env src ws zf = (None, zf') \<Longrightarrow> zf' = zf @ concat (map (dir_entries src) ws)"
proof (induction ws arbitrary: zf)
  case Nil
  then show ?case by simp
next
  case (Cons w ws)
  obtain dirpath dirs files where w: "w = (dirpath, dirs, files)" by (cases w)
  obtain r zf1 where wf1: "write_files env src dirpath files zf = (r, zf1)"
    by (cases "write_files env src dirpath files zf")
  with Cons.prems w have r: "r = None" and rest: "walk_loop env src ws zf1 = (None, zf')"
    by (cases r; simp)+
  from write_files_None[OF wf1[unfolded r]] have "zf1 = zf @ dir_entries src w"
    unfolding w .
  with Cons.IH[OF rest] show ?case by simp
qed

section \<open>Runs of the coordinator\<close>

lemma new_zip_path: "with_suffix DEFAULT_ZIP (suffix DEFAULT_ZIP @ ''.new'') = Inr new_zip"
  by code_simp

lemma rezip_directory_frame:
  "rezip_directory env src dst d = (r, d') \<Longrightarrow> p \<noteq> dst \<Longrightarrow> d' p = d p"
  by (auto simp: rezip_directory_def split: prod.splits if_splits)

lemma new_zip_neq: "new_zip \<noteq> DEFAULT_ZIP"
  by (simp add: new_zip_def DEFAULT_ZIP_def)

lemma main_body_disk:
  assumes "main_body tr env w = (r, w')"
  shows "(r \<noteq> Completed \<longrightarrow> disk w' DEFAULT_ZIP = disk w DEFAULT_ZIP) \<and>
         (\<forall>p. p \<noteq> DEFAULT_ZIP \<and> p \<noteq> new_zip \<longrightarrow> disk w' p = disk w p)"
  using assms new_zip_neq
  by (auto simp: main_body_def new_zip_path Let_def os_replace_def
      split: option.splits prod.splits sum.splits if_splits
      dest: rezip_directory_frame[where dst = new_zip and p = DEFAULT_ZIP]
            rezip_directory_frame[where dst = new_zip])

lemma rezip_directory_written:
  "rezip_directory env src dst d = (None, d') \<Longrightarrow> \<exists>zf. d' dst = Some (zip_bytes env zf)"
  by (auto simp: rezip_directory_def split: prod.splits if_splits)

lemma main_body_completed:
  assumes "main_body tr env w = (Completed, w')"
  shows "(\<exists>zf. disk w' DEFAULT_ZIP = Some (zip_bytes env zf)) \<and> disk w' new_zip = None"
  using assms new_zip_neq
  by (auto simp: main_body_def new_zip_path Let_def os_replace_def
      split: option.splits prod.splits sum.splits if_splits
      dest: rezip_directory_written)

lemmas run_defs = run_status_def main_with_def with_TemporaryDirectory_def main_body_def
  read_manifest_def new_zip_path Let_def

section \<open>Properties of the default transform\<close>

text \<open>
  C1. After the default transform no remaining entry of \<^verbatim>\<open>files\<close> should carry a denylisted
  \<^verbatim>\<open>projectID\<close>. The code removes the first of two adjacent denylisted entries and then
  steps over the second: with the denylist \<open>[1]\<close> the entries with ids 1, 1, 2 become
  1, 2, and the same happens with the built-in denylist.
\<close>

theorem modify_manifest_skips_adjacent_duplicate:
  "modify_manifest_with [1]
     (JObj [(''files'', JArr [JObj [(''projectID'', JInt 1)],
                              JObj [(''projectID'', JInt 1)],
                              JObj [(''projectID'', JInt 2)]])])
   = Inr (JObj [(''files'', JArr [JObj [(''projectID'', JInt 1)],
                                  JObj [(''projectID'', JInt 2)]])])
   \<and> modify_manifest
     (JObj [(''files'', JArr [JObj [(''projectID'', JInt 890127)],
                              JObj [(''projectID'', JInt 890127)],
                              JObj [(''projectID'', JInt 2)]])])
   = Inr (JObj [(''files'', JArr [JObj [(''projectID'', JInt 890127)],
                                  JObj [(''projectID'', JInt 2)]])])"
  by code_simp

text \<open>
  C5. Every entry of \<^verbatim>\<open>files\<close> whose \<^verbatim>\<open>projectID\<close> is not in the denylist is still present
  after the default transform, with the same value and in the same relative order: the
  sublist of those entries is the same list before and after. On a manifest whose entries
  are all dicts the transform returns.
\<close>

theorem modify_manifest_keeps_other_entries:
  assumes "wf_json m"
  shows "(manifest_doc m \<longrightarrow> (\<exists>m'. modify_manifest m = Inr m')) \<and>
         (\<forall>m'. modify_manifest m = Inr m' \<longrightarrow>
            filter (\<lambda>e. \<not> has_denied_id PROJECTS_TO_REMOVE e) (manifest_files m')
          = filter (\<lambda>e. \<not> has_denied_id PROJECTS_TO_REMOVE e) (manifest_files m))"
  using assms modify_manifest_with_total[of m PROJECTS_TO_REMOVE]
    modify_manifest_with_filter[of m PROJECTS_TO_REMOVE _
      "\<lambda>e. \<not> has_denied_id PROJECTS_TO_REMOVE e"]
  unfolding modify_manifest_def by blast

theorem modify_manifest_keeps_other_entries_witness:
  "modify_manifest
     (JObj [(''name'', JStr ''pack''),
            (''files'', JArr [JObj [(''projectID'', JInt 890127), (''fileID'', JInt 1)],
                              JObj [(''projectID'', JInt 5), (''fileID'', JInt 2)],
                              JObj [(''projectID'', JInt 406463)],
                              JObj [(''projectID'', JInt 7), (''required'', JBool True)]])])
   = Inr (JObj [(''name'', JStr ''pack''),
            (''files'', JArr [JObj [(''projectID'', JInt 5), (''fileID'', JInt 2)],
                              JObj [(''projectID'', JInt 7), (''required'', JBool True)]])])
   \<and> filter (\<lambda>e. \<not> has_denied_id PROJECTS_TO_REMOVE e)
        (manifest_files (JObj [(''name'', JStr ''pack''),
            (''files'', JArr [JObj [(''projectID'', JInt 5), (''fileID'', JInt 2)],
                              JObj [(''projectID'', JInt 7), (''required'', JBool True)]])]))
     = filter (\<lambda>e. \<not> has_denied_id PROJECTS_TO_REMOVE e)
        (manifest_files (JObj [(''name'', JStr ''pack''),
            (''files'', JArr [JObj [(''projectID'', JInt 890127), (''fileID'', JInt 1)],
                              JObj [(''projectID'', JInt 5), (''fileID'', JInt 2)],
                              JObj [(''projectID'', JInt 406463)],
                              JObj [(''projectID'', JInt 7), (''required'', JBool True)]])]))"
  (is "?run \<and> ?keep")
proof -
  let ?m = "JObj [(''name'', JStr ''pack''),
            (''files'', JArr [JObj [(''projectID'', JInt 890127), (''fileID'', JInt 1)],
                              JObj [(''projectID'', JInt 5), (''fileID'', JInt 2)],
                              JObj [(''projectID'', JInt 406463)],
                              JObj [(''projectID'', JInt 7), (''required'', JBool True)]])]"
  have wf: "wf_json ?m" by code_simp
  have run: ?run by code_simp
  from modify_manifest_keeps_other_entries[OF wf] run have ?keep by blast
  with run show ?thesis by blast
qed

text \<open>
  C6. The default transform should be idempotent: transforming a manifest that has already
  been transformed should change nothing. A manifest without denylisted entries is indeed
  left as it is (\<open>modify_manifest_with_fixpoint\<close>), but one run can leave a denylisted entry
  behind, and the next run then removes it: the entries with ids 890127, 890127, 2 become
  890127, 2 and then 2.
\<close>

theorem modify_manifest_second_run_removes_more:
  "modify_manifest
     (JObj [(''files'', JArr [JObj [(''projectID'', JInt 890127)],
                              JObj [(''projectID'', JInt 890127)],
                              JObj [(''projectID'', JInt 2)]])])
   = Inr (JObj [(''files'', JArr [JObj [(''projectID'', JInt 890127)],
                                  JObj [(''projectID'', JInt 2)]])])
   \<and> modify_manifest
     (JObj [(''files'', JArr [JObj [(''projectID'', JInt 890127)],
                              JObj [(''projectID'', JInt 2)]])])
   = Inr (JObj [(''files'', JArr [JObj [(''projectID'', JInt 2)]])])
   \<and> modify_manifest
     (JObj [(''files'', JArr [JObj [(''projectID'', JInt 890127)],
                              JObj [(''projectID'', JInt 2)]])])
   \<noteq> Inr (JObj [(''files'', JArr [JObj [(''projectID'', JInt 890127)],
                                  JObj [(''projectID'', JInt 2)]])])"
  by code_simp

text \<open>
  C7. The default transform alters only the \<^verbatim>\<open>files\<close> field: the result is a dict with the
  same keys in the same order, and every field other than \<^verbatim>\<open>files\<close> holds the value it
  held before.
\<close>

theorem modify_manifest_frame:
  assumes "modify_manifest m = Inr m'"
  shows "\<exists>kvs kvs'. m = JObj kvs \<and> m' = JObj kvs' \<and> map fst kvs' = map fst kvs \<and>
           (\<forall>i < length kvs. fst (kvs ! i) \<noteq> ''files'' \<longrightarrow> kvs' ! i = kvs ! i)"
proof -
  from assms have "modify_manifest_with PROJECTS_TO_REMOVE m = Inr m'"
    by (simp add: modify_manifest_def)
  then obtain kvs fv where m: "m = JObj kvs" and fv: "map_of kvs ''files'' = Some fv"
    and alt: "(\<exists>xs ys. fv = JArr xs \<and> files_loop PROJECTS_TO_REMOVE 0 xs = Inr ys \<and>
            m' = JObj (AList.update ''files'' (JArr ys) kvs))
         \<or> ((fv = JObj [] \<or> fv = JStr []) \<and> m' = m)"
    by (rule modify_manifest_with_Inr)
  from alt show ?thesis
  proof
    assume "\<exists>xs ys. fv = JArr xs \<and> files_loop PROJECTS_TO_REMOVE 0 xs = Inr ys \<and>
            m' = JObj (AList.update ''files'' (JArr ys) kvs)"
    then obtain ys where m': "m' = JObj (AList.update ''files'' (JArr ys) kvs)" by blast
    have "map fst (AList.update ''files'' (JArr ys) kvs) = map fst kvs"
      using fv by (rule update_present_keys)
    moreover have "\<forall>i < length kvs. fst (kvs ! i) \<noteq> ''files'' \<longrightarrow>
        AList.update ''files'' (JArr ys) kvs ! i = kvs ! i"
      by (simp add: update_other_nth)
    ultimately show ?thesis using m m' by blast
  next
    assume "(fv = JObj [] \<or> fv = JStr []) \<and> m' = m"
    with m show ?thesis by simp
  qed
qed

theorem modify_manifest_frame_witness:
  "\<exists>kvs kvs'.
      JObj [(''name'', JStr ''pack''),
            (''files'', JArr [JObj [(''projectID'', JInt 889079)], JObj [(''fileID'', JInt 3)]]),
            (''minecraft'', JObj [(''version'', JStr ''1.20.1'')])] = JObj kvs
    \<and> JObj [(''name'', JStr ''pack''),
            (''files'', JArr [JObj [(''fileID'', JInt 3)]]),
            (''minecraft'', JObj [(''version'', JStr ''1.20.1'')])] = JObj kvs'
    \<and> map fst kvs' = map fst kvs
    \<and> (\<forall>i < length kvs. fst (kvs ! i) \<noteq> ''files'' \<longrightarrow> kvs' ! i = kvs ! i)"
proof -
  have "modify_manifest
     (JObj [(''name'', JStr ''pack''),
            (''files'', JArr [JObj [(''projectID'', JInt 889079)], JObj [(''fileID'', JInt 3)]]),
            (''minecraft'', JObj [(''version'', JStr ''1.20.1'')])])
   = Inr (JObj [(''name'', JStr ''pack''),
            (''files'', JArr [JObj [(''fileID'', JInt 3)]]),
            (''minecraft'', JObj [(''version'', JStr ''1.20.1'')])])"
    by code_simp
  then show ?thesis by (rule modify_manifest_frame)
qed

text \<open>
  C10. An entry of \<^verbatim>\<open>files\<close> without a \<^verbatim>\<open>projectID\<close> field never passes the denylist test
  (\<^verbatim>\<open>get\<close> gives \<^verbatim>\<open>None\<close>, which is in no list of ints), and the round of the loop that
  visits it raises nothing and leaves the list as it is; on a manifest whose entries are
  all dicts the default transform raises nothing, and whenever it returns, the entries
  without the field are all retained, unchanged and in order.
\<close>

theorem entries_without_projectID_retained:
  assumes "wf_json m"
  shows "(\<forall>e. lacks_projectID e \<longrightarrow> \<not> has_denied_id PROJECTS_TO_REMOVE e) \<and>
         (\<forall>i xs. i < length xs \<and> lacks_projectID (xs ! i) \<longrightarrow>
            files_loop PROJECTS_TO_REMOVE i xs = files_loop PROJECTS_TO_REMOVE (Suc i) xs) \<and>
         (manifest_doc m \<longrightarrow> (\<exists>m'. modify_manifest m = Inr m')) \<and>
         (\<forall>m'. modify_manifest m = Inr m' \<longrightarrow>
            filter lacks_projectID (manifest_files m') = filter lacks_projectID (manifest_files m))"
  using assms modify_manifest_with_total[of m PROJECTS_TO_REMOVE]
    modify_manifest_with_filter[of m PROJECTS_TO_REMOVE _ lacks_projectID]
    lacks_not_denied[of _ PROJECTS_TO_REMOVE]
    files_loop_skips_lacking[of _ _ PROJECTS_TO_REMOVE]
  unfolding modify_manifest_def by blast

theorem entries_without_projectID_retained_witness:
  "modify_manifest
     (JObj [(''files'', JArr [JObj [(''fileID'', JInt 1)],
                              JObj [(''projectID'', JInt 889079), (''fileID'', JInt 2)],
                              JObj [(''fileID'', JInt 3)]])])
   = Inr (JObj [(''files'', JArr [JObj [(''fileID'', JInt 1)], JObj [(''fileID'', JInt 3)]])])
   \<and> filter lacks_projectID
        (manifest_files
           (JObj [(''files'', JArr [JObj [(''fileID'', JInt 1)], JObj [(''fileID'', JInt 3)]])]))
     = filter lacks_projectID
        (manifest_files
           (JObj [(''files'', JArr [JObj [(''fileID'', JInt 1)],
                                    JObj [(''projectID'', JInt 889079), (''fileID'', JInt 2)],
                                    JObj [(''fileID'', JInt 3)]])]))"
  (is "?run \<and> ?keep")
proof -
  let ?m = "JObj [(''files'', JArr [JObj [(''fileID'', JInt 1)],
                                    JObj [(''projectID'', JInt 889079), (''fileID'', JInt 2)],
                                    JObj [(''fileID'', JInt 3)]])]"
  have wf: "wf_json ?m" by code_simp
  have run: ?run by code_simp
  from entries_without_projectID_retained[OF wf] run have ?keep by blast
  with run show ?thesis by blast
qed

section \<open>Properties of the archive writer and the coordinator\<close>

text \<open>
  C8. The archive that \<^verbatim>\<open>rezip_directory\<close> produces from a directory holds exactly one entry
  for each file of the tree, named by the POSIX form of the file's relative path and holding
  its content: as multisets, the entries are the files of the tree. When no write fails the
  archive is produced.
\<close>

theorem rezip_directory_entries:
  assumes wf: "wf_tree (Dir es)"
  shows "(\<not> zip_open_fails env \<and> (\<forall>p. \<not> zf_write_fails env p)
            \<longrightarrow> fst (rezip_directory env (Dir es) dst_zip d0) = None) \<and>
         (\<forall>d'. rezip_directory env (Dir es) dst_zip d0 = (None, d') \<longrightarrow>
            (\<exists>zf. d' = d0(dst_zip \<mapsto> zip_bytes env zf) \<and>
               mset zf = mset (map (\<lambda>(p, c). (as_posix p, c)) (tree_files (Dir es)))))"
proof (intro conjI impI allI)
  assume ok: "\<not> zip_open_fails env \<and> (\<forall>p. \<not> zf_write_fails env p)"
  have "lookup (Dir es) [] = Some (Dir es)" by simp
  from os_walk_readable[OF wf this] ok
  have "walk_loop env (Dir es) (os_walk [] (Dir es)) []
      = (None, [] @ concat (map (dir_entries (Dir es)) (os_walk [] (Dir es))))"
    by (intro walk_loop_ok) auto
  with ok show "fst (rezip_directory env (Dir es) dst_zip d0) = None"
    by (simp add: rezip_directory_def)
next
  fix d'
  assume run: "rezip_directory env (Dir es) dst_zip d0 = (None, d')"
  obtain r zf where wl: "walk_loop env (Dir es) (os_walk [] (Dir es)) [] = (r, zf)"
    by (cases "walk_loop env (Dir es) (os_walk [] (Dir es)) []")
  with run have r: "r = None" and d: "d' = d0(dst_zip \<mapsto> zip_bytes env zf)"
    by (auto simp: rezip_directory_def split: if_splits)
  from walk_loop_None[OF wl[unfolded r]]
  have "zf = concat (map (dir_entries (Dir es)) (os_walk [] (Dir es)))" by simp
  moreover have "lookup (Dir es) [] = Some (Dir es)" by simp
  from os_walk_entries[OF wf this]
  have "mset (concat (map (dir_entries (Dir es)) (os_walk [] (Dir es))))
      = mset (map (\<lambda>(p, c). (as_posix p, c)) (tree_files (Dir es)))" by simp
  ultimately show "\<exists>zf. d' = d0(dst_zip \<mapsto> zip_bytes env zf) \<and>
      mset zf = mset (map (\<lambda>(p, c). (as_posix p, c)) (tree_files (Dir es)))"
    using d by blast
qed

theorem rezip_directory_entries_witness:
  "rezip_directory example_env
     (Dir [(''manifest.json'', File ''{}''),
           (''overrides'', Dir [(''a.cfg'', File ''1''), (''empty'', Dir []),
                                (''b.cfg'', File ''2'')]),
           (''modlist.html'', File ''m'')])
     [''out.zip''] Map.empty
   = (None, [[''out.zip''] \<mapsto>
        ''manifest.json={};modlist.html=m;overrides/a.cfg=1;overrides/b.cfg=2;''])
   \<and> (\<exists>zf. [[''out.zip''] \<mapsto>
              ''manifest.json={};modlist.html=m;overrides/a.cfg=1;overrides/b.cfg=2;'']
          = Map.empty([''out.zip''] \<mapsto> zip_bytes example_env zf) \<and>
        mset zf = mset [(''manifest.json'', ''{}''), (''overrides/a.cfg'', ''1''),
                        (''overrides/b.cfg'', ''2''), (''modlist.html'', ''m'')])"
  (is "?run \<and> ?ex")
proof -
  let ?t = "[(''manifest.json'', File ''{}''),
           (''overrides'', Dir [(''a.cfg'', File ''1''), (''empty'', Dir []),
                                (''b.cfg'', File ''2'')]),
           (''modlist.html'', File ''m'')]"
  have wf: "wf_tree (Dir ?t)" by simp
  have run: ?run
    by (simp add: rezip_directory_def zf_write_def read_file_def example_env_def)
  have tf: "map (\<lambda>(p, c). (as_posix p, c)) (tree_files (Dir ?t))
      = [(''manifest.json'', ''{}''), (''overrides/a.cfg'', ''1''),
         (''overrides/b.cfg'', ''2''), (''modlist.html'', ''m'')]" by simp
  from rezip_directory_entries[OF wf, THEN conjunct2, rule_format, OF run] tf
  have ?ex by simp
  with run show ?thesis by blast
qed

text \<open>
  C2. The bytes at the original archive path change only by the final \<^verbatim>\<open>os.replace\<close>: the new
  archive is built at the sibling path with \<^verbatim>\<open>.new\<close> appended; a run that ends in any other
  way than completion leaves the original path as it was; no path other than these two is
  written; and after completion the original path holds a freshly built archive and the
  sibling is gone.
\<close>

theorem original_archive_changes_only_by_swap:
  "with_suffix DEFAULT_ZIP (suffix DEFAULT_ZIP @ ''.new'') = Inr new_zip \<and>
   (fst (main_with tr env w) \<noteq> Completed \<longrightarrow>
      disk (snd (main_with tr env w)) DEFAULT_ZIP = disk w DEFAULT_ZIP) \<and>
   (\<forall>p. p \<noteq> DEFAULT_ZIP \<and> p \<noteq> new_zip \<longrightarrow> disk (snd (main_with tr env w)) p = disk w p) \<and>
   (fst (main_with tr env w) = Completed \<longrightarrow>
      (\<exists>zf. disk (snd (main_with tr env w)) DEFAULT_ZIP = Some (zip_bytes env zf)) \<and>
      disk (snd (main_with tr env w)) new_zip = None)"
proof (cases "disk w DEFAULT_ZIP = None")
  case True
  then show ?thesis by (simp add: main_with_def new_zip_path)
next
  case False
  obtain r w' where body: "main_body tr env (w\<lparr>tmpdir := Some (Dir [])\<rparr>) = (r, w')"
    by (cases "main_body tr env (w\<lparr>tmpdir := Some (Dir [])\<rparr>)")
  with False have run: "main_with tr env w = (r, w'\<lparr>tmpdir := None\<rparr>)"
    by (auto simp: main_with_def with_TemporaryDirectory_def)
  have "r = Completed \<longrightarrow>
      (\<exists>zf. disk w' DEFAULT_ZIP = Some (zip_bytes env zf)) \<and> disk w' new_zip = None"
    using main_body_completed body by blast
  with main_body_disk[OF body] run show ?thesis by (simp add: new_zip_path)
qed

theorem original_archive_changes_only_by_swap_witness:
  "fst (main (example_env\<lparr>zf_write_fails := (\<lambda>p. p = [''overrides'', ''options.txt''])\<rparr>)
          example_world) = Exit 11
   \<and> disk (snd (main (example_env\<lparr>zf_write_fails := (\<lambda>p. p = [''overrides'', ''options.txt''])\<rparr>)
          example_world)) DEFAULT_ZIP = Some ''old-archive''
   \<and> (\<exists>zf. disk (snd (main example_env example_world)) DEFAULT_ZIP
          = Some (zip_bytes example_env zf))"
proof -
  let ?E = "example_env\<lparr>zf_write_fails := (\<lambda>p. p = [''overrides'', ''options.txt''])\<rparr>"
  have st: "fst (main ?E example_world) = Exit 11" by code_simp
  then have "fst (main_with (in_place modify_manifest) ?E example_world) \<noteq> Completed"
    by (simp add: main_def)
  with original_archive_changes_only_by_swap[of "in_place modify_manifest" ?E example_world]
  have "disk (snd (main ?E example_world)) DEFAULT_ZIP = disk example_world DEFAULT_ZIP"
    by (simp add: main_def)
  moreover have "disk example_world DEFAULT_ZIP = Some ''old-archive''"
    by (simp add: example_world_def)
  moreover have "fst (main_with (in_place modify_manifest) example_env example_world) = Completed"
    unfolding main_def[symmetric] by code_simp
  with original_archive_changes_only_by_swap[of "in_place modify_manifest" example_env example_world]
  have "\<exists>zf. disk (snd (main example_env example_world)) DEFAULT_ZIP
          = Some (zip_bytes example_env zf)"
    by (simp add: main_def)
  ultimately show ?thesis using st by simp
qed

text \<open>
  C9. A run that creates the temporary working directory ends without it, however the body
  of the \<^verbatim>\<open>with\<close> block ended: by completion, by \<^verbatim>\<open>sys.exit\<close> or by an uncaught exception.
\<close>

theorem tmpdir_removed:
  "disk w DEFAULT_ZIP \<noteq> None \<Longrightarrow> tmpdir (snd (main_with tr env w)) = None"
  by (auto simp: main_with_def with_TemporaryDirectory_def split: prod.splits)

theorem tmpdir_removed_witness:
  "tmpdir (snd (main_with (in_place modify_manifest) example_env example_world)) = None
   \<and> tmpdir (snd (main_with (in_place modify_manifest)
        (example_env\<lparr>extractall := (\<lambda>z. (Some BadZipFile, [(''partial'', File ''x'')]))\<rparr>)
        example_world)) = None"
proof -
  have "disk example_world DEFAULT_ZIP \<noteq> None" by (simp add: example_world_def)
  then show ?thesis using tmpdir_removed by blast
qed

text \<open>
  C3. Each of the eight error kinds should end the process with an exit status of its own.
  The code has seven exits: a missing manifest and a manifest that is not valid JSON are
  caught by the same handler and both end with status 5.
\<close>

theorem missing_and_invalid_manifest_share_status:
  "exit_status (fst (main
      (example_env\<lparr>extractall := (\<lambda>z. (None, [(''modlist.html'', File ''m'')]))\<rparr>)
      example_world)) = 5
   \<and> exit_status (fst (main
      (example_env\<lparr>extractall := (\<lambda>z. (None, [(''manifest.json'', File ''not json'')]))\<rparr>)
      example_world)) = 5"
  by code_simp

text \<open>
  C3, as the code has it: archive not found ends with status 1, a corrupt archive with 3, a
  manifest that is missing or not valid JSON with 5, a result that cannot be serialised with
  8, a failure to write the manifest with 9, a failure to build the new archive with 11 and
  a failure of the final replace with 12: seven statuses, distinct and not zero.
\<close>

theorem exit_statuses:
  "(disk w DEFAULT_ZIP = None \<longrightarrow> run_status tr env w = 1) \<and>
   (\<forall>z es. disk w DEFAULT_ZIP = Some z \<and> extractall env z = (Some BadZipFile, es)
      \<longrightarrow> run_status tr env w = 3) \<and>
   (\<forall>z es. disk w DEFAULT_ZIP = Some z \<and> extractall env z = (None, es) \<and>
        read_file (Dir es) [''manifest.json''] = None
      \<longrightarrow> run_status tr env w = 5) \<and>
   (\<forall>z es b. disk w DEFAULT_ZIP = Some z \<and> extractall env z = (None, es) \<and>
        read_file (Dir es) [''manifest.json''] = Some b \<and> json_load env b = None
      \<longrightarrow> run_status tr env w = 5) \<and>
   (\<forall>z es m a r. disk w DEFAULT_ZIP = Some z \<and> extractall env z = (None, es) \<and>
        read_manifest env (Dir es) = Some m \<and> tr m = Inr (a, r) \<and> json_dumps env a = None
      \<longrightarrow> run_status tr env w = 8) \<and>
   (\<forall>z es m a r s. disk w DEFAULT_ZIP = Some z \<and> extractall env z = (None, es) \<and>
        read_manifest env (Dir es) = Some m \<and> tr m = Inr (a, r) \<and> json_dumps env a = Some s \<and>
        manifest_write_fails env
      \<longrightarrow> run_status tr env w = 9) \<and>
   (\<forall>z es m a r s. disk w DEFAULT_ZIP = Some z \<and> extractall env z = (None, es) \<and>
        read_manifest env (Dir es) = Some m \<and> tr m = Inr (a, r) \<and> json_dumps env a = Some s \<and>
        \<not> manifest_write_fails env \<and>
        fst (rezip_directory env (write_text (Dir es) ''manifest.json'' (s @ [CHR 0x0A]))
               new_zip (disk w)) \<noteq> None
      \<longrightarrow> run_status tr env w = 11) \<and>
   (\<forall>z es m a r s. disk w DEFAULT_ZIP = Some z \<and> extractall env z = (None, es) \<and>
        read_manifest env (Dir es) = Some m \<and> tr m = Inr (a, r) \<and> json_dumps env a = Some s \<and>
        \<not> manifest_write_fails env \<and>
        fst (rezip_directory env (write_text (Dir es) ''manifest.json'' (s @ [CHR 0x0A]))
               new_zip (disk w)) = None \<and>
        replace_fails env
      \<longrightarrow> run_status tr env w = 12)"
proof (intro conjI allI impI)
  assume "disk w DEFAULT_ZIP = None"
  then show "run_status tr env w = 1" by (simp add: run_defs)
next
  fix z es
  assume "disk w DEFAULT_ZIP = Some z \<and> extractall env z = (Some BadZipFile, es)"
  then show "run_status tr env w = 3" by (simp add: run_defs)
next
  fix z es
  assume "disk w DEFAULT_ZIP = Some z \<and> extractall env z = (None, es) \<and>
        read_file (Dir es) [''manifest.json''] = None"
  then show "run_status tr env w = 5" by (simp add: run_defs)
next
  fix z es b
  assume "disk w DEFAULT_ZIP = Some z \<and> extractall env z = (None, es) \<and>
        read_file (Dir es) [''manifest.json''] = Some b \<and> json_load env b = None"
  then show "run_status tr env w = 5" by (simp add: run_defs)
next
  fix z es m a r
  assume "disk w DEFAULT_ZIP = Some z \<and> extractall env z = (None, es) \<and>
        read_manifest env (Dir es) = Some m \<and> tr m = Inr (a, r) \<and> json_dumps env a = None"
  then show "run_status tr env w = 8" by (simp add: run_defs)
next
  fix z es m a r s
  assume "disk w DEFAULT_ZIP = Some z \<and> extractall env z = (None, es) \<and>
        read_manifest env (Dir es) = Some m \<and> tr m = Inr (a, r) \<and> json_dumps env a = Some s \<and>
        manifest_write_fails env"
  then show "run_status tr env w = 9" by (simp add: run_defs)
next
  fix z es m a r s
  assume "disk w DEFAULT_ZIP = Some z \<and> extractall env z = (None, es) \<and>
        read_manifest env (Dir es) = Some m \<and> tr m = Inr (a, r) \<and> json_dumps env a = Some s \<and>
        \<not> manifest_write_fails env \<and>
        fst (rezip_directory env (write_text (Dir es) ''manifest.json'' (s @ [CHR 0x0A]))
               new_zip (disk w)) \<noteq> None"
  then show "run_status tr env w = 11"
    by (auto simp: run_defs split: prod.splits option.splits)
next
  fix z es m a r s
  assume "disk w DEFAULT_ZIP = Some z \<and> extractall env z = (None, es) \<and>
        read_manifest env (Dir es) = Some m \<and> tr m = Inr (a, r) \<and> json_dumps env a = Some s \<and>
        \<not> manifest_write_fails env \<and>
        fst (rezip_directory env (write_text (Dir es) ''manifest.json'' (s @ [CHR 0x0A]))
               new_zip (disk w)) = None \<and>
        replace_fails env"
  then show "run_status tr env w = 12"
    by (auto simp: run_defs split: prod.splits option.splits)
qed

theorem exit_statuses_witness:
  "run_status (in_place modify_manifest) example_env (example_world\<lparr>disk := Map.empty\<rparr>) = 1
   \<and> run_status (in_place modify_manifest)
        (example_env\<lparr>extractall := (\<lambda>z. (Some BadZipFile, []))\<rparr>) example_world = 3
   \<and> run_status (in_place modify_manifest)
        (example_env\<lparr>extractall := (\<lambda>z. (None, [(''modlist.html'', File ''m'')]))\<rparr>)
        example_world = 5
   \<and> run_status (in_place modify_manifest)
        (example_env\<lparr>json_load := (\<lambda>s. None)\<rparr>) example_world = 5
   \<and> run_status (in_place modify_manifest)
        (example_env\<lparr>json_dumps := (\<lambda>j. None)\<rparr>) example_world = 8
   \<and> run_status (in_place modify_manifest)
        (example_env\<lparr>manifest_write_fails := True\<rparr>) example_world = 9
   \<and> run_status (in_place modify_manifest)
        (example_env\<lparr>zip_open_fails := True\<rparr>) example_world = 11
   \<and> run_status (in_place modify_manifest)
        (example_env\<lparr>replace_fails := True\<rparr>) example_world = 12"
proof -
  let ?T = "in_place modify_manifest"
  let ?es = "[(''manifest.json'', File ''manifest-bytes''),
              (''overrides'', Dir [(''options.txt'', File ''fov'')])]"
  let ?a = "JObj [(''name'', JStr ''GameNight''),
                  (''files'', JArr [JObj [(''projectID'', JInt 7), (''fileID'', JInt 2)]])]"
  have z: "disk example_world DEFAULT_ZIP = Some ''old-archive''"
    by (simp add: example_world_def)
  have tr: "?T example_manifest = Inr (?a, ?a)" by code_simp
  have "disk (example_world\<lparr>disk := Map.empty\<rparr>) DEFAULT_ZIP = None" by simp
  from exit_statuses[where tr = ?T and env = example_env, THEN conjunct1, rule_format, OF this]
  have c1: "run_status ?T example_env (example_world\<lparr>disk := Map.empty\<rparr>) = 1" .
  let ?E3 = "example_env\<lparr>extractall := (\<lambda>z. (Some BadZipFile, []))\<rparr>"
  from z have "disk example_world DEFAULT_ZIP = Some ''old-archive''
      \<and> extractall ?E3 ''old-archive'' = (Some BadZipFile, [])" by simp
  from exit_statuses[where tr = ?T and env = ?E3 and w = example_world, THEN conjunct2, THEN conjunct1, rule_format, OF this]
  have c3: "run_status ?T ?E3 example_world = 3" .
  let ?E5 = "example_env\<lparr>extractall := (\<lambda>z. (None, [(''modlist.html'', File ''m'')]))\<rparr>"
  from z have "disk example_world DEFAULT_ZIP = Some ''old-archive''
      \<and> extractall ?E5 ''old-archive'' = (None, [(''modlist.html'', File ''m'')])
      \<and> read_file (Dir [(''modlist.html'', File ''m'')]) [''manifest.json''] = None"
    by (simp add: read_file_def)
  from exit_statuses[where tr = ?T and env = ?E5 and w = example_world, THEN conjunct2, THEN conjunct2, THEN conjunct1, rule_format, OF this]
  have c5: "run_status ?T ?E5 example_world = 5" .
  let ?E5b = "example_env\<lparr>json_load := (\<lambda>s. None)\<rparr>"
  from z have "disk example_world DEFAULT_ZIP = Some ''old-archive''
      \<and> extractall ?E5b ''old-archive'' = (None, ?es)
      \<and> read_file (Dir ?es) [''manifest.json''] = Some ''manifest-bytes''
      \<and> json_load ?E5b ''manifest-bytes'' = None"
    by (simp add: read_file_def example_env_def)
  from exit_statuses[where tr = ?T and env = ?E5b and w = example_world, THEN conjunct2, THEN conjunct2, THEN conjunct2, THEN conjunct1,
      rule_format, OF this]
  have c5b: "run_status ?T ?E5b example_world = 5" .
  let ?E8 = "example_env\<lparr>json_dumps := (\<lambda>j. None)\<rparr>"
  from z tr have "disk example_world DEFAULT_ZIP = Some ''old-archive''
      \<and> extractall ?E8 ''old-archive'' = (None, ?es)
      \<and> read_manifest ?E8 (Dir ?es) = Some example_manifest
      \<and> ?T example_manifest = Inr (?a, ?a)
      \<and> json_dumps ?E8 ?a = None"
    by (simp add: read_manifest_def read_file_def example_env_def)
  from exit_statuses[where tr = ?T and env = ?E8 and w = example_world, THEN conjunct2, THEN conjunct2, THEN conjunct2, THEN conjunct2,
      THEN conjunct1, rule_format, OF this]
  have c8: "run_status ?T ?E8 example_world = 8" .
  let ?E9 = "example_env\<lparr>manifest_write_fails := True\<rparr>"
  from z tr have "disk example_world DEFAULT_ZIP = Some ''old-archive''
      \<and> extractall ?E9 ''old-archive'' = (None, ?es)
      \<and> read_manifest ?E9 (Dir ?es) = Some example_manifest
      \<and> ?T example_manifest = Inr (?a, ?a)
      \<and> json_dumps ?E9 ?a = Some ''patched-bytes'' \<and> manifest_write_fails ?E9"
    by (simp add: read_manifest_def read_file_def example_env_def manifest_files_def)
  from exit_statuses[where tr = ?T and env = ?E9 and w = example_world, THEN conjunct2, THEN conjunct2, THEN conjunct2, THEN conjunct2,
      THEN conjunct2, THEN conjunct1, rule_format, OF this]
  have c9: "run_status ?T ?E9 example_world = 9" .
  let ?E11 = "example_env\<lparr>zip_open_fails := True\<rparr>"
  from z tr have "disk example_world DEFAULT_ZIP = Some ''old-archive''
      \<and> extractall ?E11 ''old-archive'' = (None, ?es)
      \<and> read_manifest ?E11 (Dir ?es) = Some example_manifest
      \<and> ?T example_manifest = Inr (?a, ?a)
      \<and> json_dumps ?E11 ?a = Some ''patched-bytes'' \<and> \<not> manifest_write_fails ?E11
      \<and> fst (rezip_directory ?E11
               (write_text (Dir ?es) ''manifest.json'' (''patched-bytes'' @ [CHR 0x0A]))
               new_zip (disk example_world)) \<noteq> None"
    by (simp add: read_manifest_def read_file_def example_env_def manifest_files_def
        rezip_directory_def)
  from exit_statuses[where tr = ?T and env = ?E11 and w = example_world, THEN conjunct2, THEN conjunct2, THEN conjunct2, THEN conjunct2,
      THEN conjunct2, THEN conjunct2, THEN conjunct1, rule_format, OF this]
  have c11: "run_status ?T ?E11 example_world = 11" .
  let ?E12 = "example_env\<lparr>replace_fails := True\<rparr>"
  have "fst (rezip_directory ?E12
               (write_text (Dir ?es) ''manifest.json'' (''patched-bytes'' @ [CHR 0x0A]))
               new_zip (disk example_world)) = None"
    by code_simp
  with z tr have "disk example_world DEFAULT_ZIP = Some ''old-archive''
      \<and> extractall ?E12 ''old-archive'' = (None, ?es)
      \<and> read_manifest ?E12 (Dir ?es) = Some example_manifest
      \<and> ?T example_manifest = Inr (?a, ?a)
      \<and> json_dumps ?E12 ?a = Some ''patched-bytes'' \<and> \<not> manifest_write_fails ?E12
      \<and> fst (rezip_directory ?E12
               (write_text (Dir ?es) ''manifest.json'' (''patched-bytes'' @ [CHR 0x0A]))
               new_zip (disk example_world)) = None
      \<and> replace_fails ?E12"
    by (simp add: read_manifest_def read_file_def example_env_def manifest_files_def)
  from exit_statuses[where tr = ?T and env = ?E12 and w = example_world, THEN conjunct2, THEN conjunct2, THEN conjunct2, THEN conjunct2,
      THEN conjunct2, THEN conjunct2, THEN conjunct2, rule_format, OF this]
  have c12: "run_status ?T ?E12 example_world = 12" .
  from c1 c3 c5 c5b c8 c9 c11 c12 show ?thesis by blast
qed



end
